theory Spec2Isabelle
  imports Complex_Main "HOL-Library.Signed_Division"
begin

section \<open>Data model of the DevConsole component\<close>

text \<open>
  The component keeps its state in React state cells. JavaScript numbers are modelled as
  \<open>real\<close> (the metric fields) or \<open>int\<close> (the step index), and the millisecond clock
  \<open>Date.now()\<close> as a \<open>nat\<close> that every operation reading the clock takes as an
  argument.

  The text of a log entry can be any JavaScript string, so it is modelled as the list of
  its Unicode code points (\<open>jsstring\<close>; a surrogate outside a pair counts as a code point
  of its own). \<open>js\<close> turns an ASCII literal into such a list. The identifiers of the
  entries are decimal numerals and stay ASCII \<open>string\<close>s.
\<close>

type_synonym jsstring = "nat list"

definition js :: "string \<Rightarrow> jsstring" where
  "js s = map of_char s"

record MetricState =
  cpuLoad :: real
  flowVel :: real
  views :: real
  conversionRate :: real

record StepDetails =
  estTime :: string
  allocation :: string
  threads :: nat
  status :: string

record WorkflowStep =
  step_id :: string
  step_label :: string
  subtext :: string
  details :: StepDetails

datatype LogType = info | ai | error

record LogEntry =
  log_id :: string
  log_text :: jsstring
  log_type :: LogType

record ConsoleState =
  metrics :: MetricState
  activeStep :: int
  selectedStep :: "WorkflowStep option"
  logs :: "LogEntry list"
  isAiLoading :: bool

section \<open>JavaScript library functions used by the component\<close>

text \<open>\<open>Array.prototype.slice(start)\<close>: a negative start counts from the end of the array.\<close>

definition slice :: "int \<Rightarrow> 'a list \<Rightarrow> 'a list" where
  "slice start xs =
     (let len = int (length xs);
          k = (if start < 0 then max (len + start) 0 else min start len)
      in drop (nat k) xs)"

text \<open>\<open>Number.prototype.toString()\<close> on a non-negative integer: its decimal digits.\<close>

definition digit_char :: "nat \<Rightarrow> char" where
  "digit_char d = ''0123456789'' ! d"

fun toString :: "nat \<Rightarrow> string" where
  "toString n =
     (if n < 10 then [digit_char n] else toString (n div 10) @ [digit_char (n mod 10)])"

declare toString.simps [simp del]

text \<open>
  \<open>Math.round\<close> rounds to the nearest integer, a half towards plus infinity;
  \<open>Math.floor\<close> rounds down. Both return a number again.
\<close>

definition Math_round :: "real \<Rightarrow> real" where
  "Math_round x = of_int \<lfloor>x + 1 / 2\<rfloor>"

definition Math_floor :: "real \<Rightarrow> real" where
  "Math_floor x = of_int \<lfloor>x\<rfloor>"

text \<open>
  \<open>parseFloat(x.toFixed(2))\<close>: \<open>toFixed\<close> works on the magnitude, takes the integer
  \<open>n\<close> with \<open>n / 100\<close> nearest to it (the larger of two candidates), and puts the
  sign back. The model applies this to the exact real sum. The source applies it to the
  double that the sum rounds to, so where the exact sum lies halfway between two
  hundredths the source can give the neighbouring hundredth. The sample inputs below
  stay away from such sums, and no claim is about the field \<open>conversionRate\<close>.
\<close>

definition toFixed2 :: "real \<Rightarrow> real" where
  "toFixed2 x =
     (if x < 0 then - (of_int \<lfloor>(- x) * 100 + 1 / 2\<rfloor> / 100)
      else of_int \<lfloor>x * 100 + 1 / 2\<rfloor> / 100)"

text \<open>
  \<open>String.prototype.trim\<close> removes the code points of the ECMAScript productions
  \<open>WhiteSpace\<close> and \<open>LineTerminator\<close> from both ends of the string.
\<close>

definition isWhiteSpace :: "nat \<Rightarrow> bool" where
  "isWhiteSpace c =
     (c \<in> set [0x0009, 0x000A, 0x000B, 0x000C, 0x000D, 0x0020, 0x00A0, 0x1680,
                0x2028, 0x2029, 0x202F, 0x205F, 0x3000, 0xFEFF]
      \<or> (0x2000 \<le> c \<and> c \<le> 0x200A))"

definition trim :: "jsstring \<Rightarrow> jsstring" where
  "trim s = rev (dropWhile isWhiteSpace (rev (dropWhile isWhiteSpace s)))"

text \<open>
  \<open>String.prototype.toUpperCase\<close> replaces every code point by its upper-case mapping
  in the Unicode character database, which can be longer than one code point, and leaves
  a code point without a mapping as it is. The database is not part of the source: it is
  the argument \<open>tbl\<close>, which gives the mapping of a code point, or \<open>[]\<close> when the
  database has none.
\<close>

definition upperOf :: "(nat \<Rightarrow> nat list) \<Rightarrow> nat \<Rightarrow> nat list" where
  "upperOf tbl c = (case tbl c of [] \<Rightarrow> [c] | u # us \<Rightarrow> u # us)"

definition toUpperCase :: "(nat \<Rightarrow> nat list) \<Rightarrow> jsstring \<Rightarrow> jsstring" where
  "toUpperCase tbl s = concat (map (upperOf tbl) s)"

text \<open>
  \<open>Math.random()\<close> returns a number \<open>r\<close> with \<open>0 \<le> r < 1\<close>. Each call in the source is
  an argument of the model, and \<open>isRandom\<close> says that the argument is a possible draw.
\<close>

definition isRandom :: "real \<Rightarrow> bool" where
  "isRandom r = (0 \<le> r \<and> r < 1)"

section \<open>The log buffer\<close>

text \<open>
  \<open>addLog\<close> hands React the updater
  \<open>prev => [...prev.slice(-15), { id: Date.now().toString(), text, type }]\<close>.
  \<open>newEntry\<close> is the object literal, \<open>addLog\<close> the updater applied to the previous log.
\<close>

definition newEntry :: "nat \<Rightarrow> jsstring \<Rightarrow> LogType \<Rightarrow> LogEntry" where
  "newEntry now txt ty = \<lparr>log_id = toString now, log_text = txt, log_type = ty\<rparr>"

definition addLog :: "nat \<Rightarrow> jsstring \<Rightarrow> LogType \<Rightarrow> LogEntry list \<Rightarrow> LogEntry list" where
  "addLog now txt ty prev = slice (- 15) prev @ [newEntry now txt ty]"

text \<open>A run of appends, oldest request first; each carries its clock reading.\<close>

fun addLogs :: "(nat \<times> jsstring \<times> LogType) list \<Rightarrow> LogEntry list \<Rightarrow> LogEntry list" where
  "addLogs [] prev = prev"
| "addLogs ((now, txt, ty) # rest) prev = addLogs rest (addLog now txt ty prev)"

definition entryOf :: "nat \<times> jsstring \<times> LogType \<Rightarrow> LogEntry" where
  "entryOf a = (case a of (now, txt, ty) \<Rightarrow> newEntry now txt ty)"

section \<open>The metric tick\<close>

text \<open>
  \<open>updateSystem\<close> hands React the updater of the metrics; \<open>r1\<close> to \<open>r4\<close> are its four
  calls of \<open>Math.random()\<close>, in source order.
\<close>

definition updateSystem :: "real \<Rightarrow> real \<Rightarrow> real \<Rightarrow> real \<Rightarrow> MetricState \<Rightarrow> MetricState" where
  "updateSystem r1 r2 r3 r4 prev =
     \<lparr>cpuLoad = min 100 (max 0 (cpuLoad prev + (r1 - 0.5) * 4)),
      flowVel = Math_round (min 2000 (max 100 (flowVel prev + (r2 - 0.5) * 80))),
      views = views prev + Math_floor (r3 * 8),
      conversionRate = toFixed2 (conversionRate prev + (r4 - 0.5) * 0.15)\<rparr>"

text \<open>A run of ticks, each with its four draws.\<close>

fun ticks :: "(real \<times> real \<times> real \<times> real) list \<Rightarrow> MetricState \<Rightarrow> MetricState" where
  "ticks [] m = m"
| "ticks ((r1, r2, r3, r4) # rest) m = ticks rest (updateSystem r1 r2 r3 r4 m)"

definition drawsOk :: "real \<times> real \<times> real \<times> real \<Rightarrow> bool" where
  "drawsOk d = (case d of (r1, r2, r3, r4) \<Rightarrow>
     isRandom r1 \<and> isRandom r2 \<and> isRandom r3 \<and> isRandom r4)"

text \<open>The clamp of a value into a closed range, used to state the ranges of the metrics.\<close>

definition clamp :: "real \<Rightarrow> real \<Rightarrow> real \<Rightarrow> real" where
  "clamp lo hi x = min hi (max lo x)"

section \<open>The step rotator\<close>

text \<open>
  \<open>nextStep\<close> hands React the updater \<open>prev => (prev + 1) % 4\<close>. The remainder of
  JavaScript takes the sign of the dividend, as \<open>smod\<close> does.
\<close>

definition nextStep :: "int \<Rightarrow> int" where
  "nextStep prev = (prev + 1) smod 4"

section \<open>The advisor request\<close>

text \<open>
  \<open>handleSync\<close> is an async function. It runs up to the \<open>await\<close> when the button is
  pressed (\<open>handleSync_start\<close>) and from the \<open>await\<close> on when the request has settled
  (\<open>handleSync_finish\<close>). The request either rejects or is fulfilled with a response
  whose \<open>text\<close> is a string or \<open>undefined\<close>.
\<close>

datatype response = Rejected | Fulfilled "jsstring option"

datatype exn = RequestError

text \<open>
  The part before the \<open>await\<close>: the new state, and whether \<open>generateContent\<close> was called.
  \<open>handleSync\<close> is a closure of the render that created it, and the \<open>isAiLoading\<close> that
  its guard reads is the constant of that render: \<open>captured\<close>. \<open>setIsAiLoading\<close> and
  \<open>addLog\<close> write to the state cells, which a later render reads; they do not change
  \<open>captured\<close>.
\<close>

definition handleSync_start_closure ::
  "bool \<Rightarrow> nat \<Rightarrow> ConsoleState \<Rightarrow> ConsoleState \<times> bool" where
  "handleSync_start_closure captured now s =
     (if captured then (s, False)
      else (s\<lparr>isAiLoading := True,
               logs := addLog now (js ''REQUESTING_AI_INSIGHT...'') ai (logs s)\<rparr>, True))"

text \<open>A run of the closure of a render that shows the state \<open>s\<close>.\<close>

definition handleSync_start :: "nat \<Rightarrow> ConsoleState \<Rightarrow> ConsoleState \<times> bool" where
  "handleSync_start now s = handleSync_start_closure (isAiLoading s) now s"

text \<open>\<open>response.text?.trim().toUpperCase() || 'INSIGHT_FETCH_TIMEOUT'\<close>\<close>

definition insightOf :: "(nat \<Rightarrow> nat list) \<Rightarrow> jsstring option \<Rightarrow> jsstring" where
  "insightOf tbl t =
     (case t of
        None \<Rightarrow> js ''INSIGHT_FETCH_TIMEOUT''
      | Some s \<Rightarrow>
          (let u = toUpperCase tbl (trim s)
           in if u = [] then js ''INSIGHT_FETCH_TIMEOUT'' else u))"

text \<open>The \<open>try\<close> block after the \<open>await\<close>: \<open>Inl\<close> is the exception that leaves it.\<close>

definition tryBlock ::
  "(nat \<Rightarrow> nat list) \<Rightarrow> nat \<Rightarrow> response \<Rightarrow> ConsoleState \<Rightarrow> exn + ConsoleState" where
  "tryBlock tbl now r s =
     (case r of
        Rejected \<Rightarrow> Inl RequestError
      | Fulfilled t \<Rightarrow> Inr (s\<lparr>logs := addLog now (insightOf tbl t) ai (logs s)\<rparr>))"

text \<open>
  The whole continuation, with \<open>catch\<close> and \<open>finally\<close>: \<open>Inl\<close> would be a rejection of
  the promise that \<open>handleSync\<close> returns.
\<close>

definition handleSync_finish ::
  "(nat \<Rightarrow> nat list) \<Rightarrow> nat \<Rightarrow> response \<Rightarrow> ConsoleState \<Rightarrow> exn + ConsoleState" where
  "handleSync_finish tbl now r s =
     (let s1 = (case tryBlock tbl now r s of
                  Inl e \<Rightarrow> s\<lparr>logs := addLog now (js ''AI_GATEWAY_TIMEOUT'') error (logs s)\<rparr>
                | Inr s' \<Rightarrow> s')
      in Inr (s1\<lparr>isAiLoading := False\<rparr>))"

text \<open>
  The closure of one render run at each of the given times, before React renders again
  and before any request settles: the final state and the number of calls of
  \<open>generateContent\<close>. Every run reads the same \<open>captured\<close>.
\<close>

fun presses_same_render :: "bool \<Rightarrow> nat list \<Rightarrow> ConsoleState \<Rightarrow> ConsoleState \<times> nat" where
  "presses_same_render captured [] s = (s, 0)"
| "presses_same_render captured (t # ts) s =
     (case handleSync_start_closure captured t s of
        (s1, sent) \<Rightarrow>
          (case presses_same_render captured ts s1 of
             (s2, n) \<Rightarrow> (s2, (if sent then 1 else 0) + n)))"

section \<open>Initial state and sample inputs\<close>

text \<open>The initial values of the state cells.\<close>

definition initialLogs :: "LogEntry list" where
  "initialLogs =
     [\<lparr>log_id = ''1'', log_text = js ''SYSTEM_BOOT_COMPLETE'', log_type = info\<rparr>,
      \<lparr>log_id = ''2'', log_text = js ''LISTENING_FOR_INPUT...'', log_type = info\<rparr>]"

definition initialMetrics :: MetricState where
  "initialMetrics = \<lparr>cpuLoad = 42.8, flowVel = 892, views = 14284, conversionRate = 4.2\<rparr>"

definition initialState :: ConsoleState where
  "initialState =
     \<lparr>metrics = initialMetrics, activeStep = 0, selectedStep = None,
      logs = initialLogs, isAiLoading = False\<rparr>"

text \<open>Seventeen presses of the deploy button, one second apart.\<close>

definition deployClicks :: "(nat \<times> jsstring \<times> LogType) list" where
  "deployClicks =
     map (\<lambda>n. (1700000000000 + 1000 * n, js ''INITIATING_CAMPAIGN_SEQUENCE...'', info))
       [0..<17]"

text \<open>The draws of three ticks.\<close>

definition sampleDraws :: "(real \<times> real \<times> real \<times> real) list" where
  "sampleDraws =
     [(0, 3 / 4, 1 / 2, 1 / 4), (1 / 2, 1 / 2, 0, 1 / 2), (3 / 4, 0, 7 / 8, 3 / 4)]"

text \<open>
  An excerpt of the upper-case mappings of the Unicode character database: the letters
  \<open>a\<close> to \<open>z\<close>, \<open>U+00E9\<close> (e with acute) and \<open>U+00DF\<close> (sharp s, which maps to \<open>SS\<close>).
\<close>

definition caseTableExcerpt :: "nat \<Rightarrow> nat list" where
  "caseTableExcerpt c =
     (if 0x61 \<le> c \<and> c \<le> 0x7A then [c - 0x20]
      else if c = 0xE9 then [0xC9]
      else if c = 0xDF then [0x53, 0x53]
      else [])"

text \<open>The state after the advisor button was pressed once in the initial state.\<close>

definition pendingState :: ConsoleState where
  "pendingState = fst (handleSync_start 1700000000000 initialState)"

section \<open>Properties of the log buffer\<close>

lemma slice_neg: "0 < k \<Longrightarrow> slice (- int k) xs = drop (length xs - k) xs"
  by (simp add: slice_def Let_def max_def nat_diff_distrib')

lemma addLog_drop:
  "addLog now txt ty prev =
     drop (length (prev @ [newEntry now txt ty]) - 16) (prev @ [newEntry now txt ty])"
proof -
  have "slice (- 15) prev = drop (length prev - 15) prev"
    using slice_neg [of 15 prev] by simp
  then show ?thesis
    by (simp add: addLog_def)
qed

lemma addLog_length: "length (addLog now txt ty prev) \<le> 16"
  by (simp add: addLog_drop)

lemma drop_last_twice:
  "drop (length (drop (length xs - 16) xs @ ys) - 16) (drop (length xs - 16) xs @ ys) =
     drop (length (xs @ ys) - 16) (xs @ ys)"
  by (cases "length xs \<le> 16") (simp_all add: min_def ac_simps)

lemma addLogs_drop:
  "es \<noteq> [] \<Longrightarrow>
     addLogs es prev = drop (length (prev @ map entryOf es) - 16) (prev @ map entryOf es)"
proof (induction es arbitrary: prev)
  case Nil
  then show ?case by simp
next
  case (Cons a es)
  obtain t m k where a: "a = (t, m, k)"
    by (cases a) auto
  show ?case
  proof (cases "es = []")
    case True
    then show ?thesis
      using addLog_drop [of t m k prev] by (simp add: a entryOf_def)
  next
    case False
    have "addLogs (a # es) prev = addLogs es (addLog t m k prev)"
      by (simp add: a)
    also have "\<dots> = drop (length (addLog t m k prev @ map entryOf es) - 16)
                       (addLog t m k prev @ map entryOf es)"
      using Cons.IH [OF False] .
    also have "\<dots> = drop (length ((prev @ [entryOf a]) @ map entryOf es) - 16)
                       ((prev @ [entryOf a]) @ map entryOf es)"
      unfolding addLog_drop a entryOf_def prod.case
      by (rule drop_last_twice)
    finally show ?thesis by simp
  qed
qed

text \<open>
  Claim C1. For every previous log and every appended entry, \<open>addLog\<close> returns the previous
  log with the new entry at the end, cut down to its last 16 elements; the result never
  holds more than 16 entries; and after a run of more than 16 appends the log is exactly
  the last 16 appended entries, in the order they were appended.
\<close>

theorem addLog_keeps_last_16:
  "addLog now txt ty prev =
     drop (length (prev @ [newEntry now txt ty]) - 16) (prev @ [newEntry now txt ty])
   \<and> length (addLog now txt ty prev) \<le> 16
   \<and> length (addLogs es prev) \<le> max 16 (length prev)
   \<and> (es \<noteq> [] \<longrightarrow> length (addLogs es prev) \<le> 16)
   \<and> (16 < length es \<longrightarrow>
        addLogs es prev = drop (length es - 16) (map entryOf es))"
proof -
  have ne: "length (addLogs es prev) \<le> 16" if "es \<noteq> []"
    using addLogs_drop [OF that, of prev] by simp
  have any: "length (addLogs es prev) \<le> max 16 (length prev)"
  proof (cases "es = []")
    case True
    then show ?thesis by simp
  next
    case False
    then show ?thesis using ne by simp
  qed
  have many: "addLogs es prev = drop (length es - 16) (map entryOf es)" if "16 < length es"
  proof -
    from that have "es \<noteq> []" by auto
    then have "addLogs es prev =
        drop (length (prev @ map entryOf es) - 16) (prev @ map entryOf es)"
      by (rule addLogs_drop)
    also have "\<dots> = drop (length es - 16) (map entryOf es)"
      using that by simp
    finally show ?thesis .
  qed
  show ?thesis
    using addLog_drop addLog_length ne any many by blast
qed

theorem addLog_keeps_last_16_witness:
  "deployClicks \<noteq> [] \<and> 16 < length deployClicks
   \<and> length (addLogs deployClicks initialLogs) \<le> 16
   \<and> addLogs deployClicks initialLogs = drop 1 (map entryOf deployClicks)"
proof -
  have len: "length deployClicks = 17"
    by (simp add: deployClicks_def)
  then have ne: "deployClicks \<noteq> []"
    by auto
  from len have big: "16 < length deployClicks"
    by simp
  show ?thesis
    using addLog_keeps_last_16 [of 0 "[]" info initialLogs deployClicks] len ne big
    by simp
qed

section \<open>Properties of the metric tick\<close>

lemma Math_round_range:
  "of_int lo \<le> x \<Longrightarrow> x \<le> of_int hi \<Longrightarrow>
     of_int lo \<le> Math_round x \<and> Math_round x \<le> of_int hi"
proof -
  assume a: "of_int lo \<le> x" "x \<le> of_int hi"
  have "lo \<le> \<lfloor>x + 1 / 2\<rfloor>"
    using a(1) by (simp add: le_floor_iff)
  moreover have "x + 1 / 2 < of_int (hi + 1)"
    using a(2) by simp
  then have "\<lfloor>x + 1 / 2\<rfloor> < hi + 1"
    by (simp only: floor_less_iff)
  then have "\<lfloor>x + 1 / 2\<rfloor> \<le> hi"
    by simp
  ultimately show ?thesis
    by (simp add: Math_round_def)
qed

lemma Math_round_mono: "x \<le> y \<Longrightarrow> Math_round x \<le> Math_round y"
  by (simp add: Math_round_def floor_mono)

lemma Math_round_of_int: "Math_round (of_int k) = of_int k"
proof -
  have "\<lfloor>(of_int k :: real) + 1 / 2\<rfloor> = k"
    by (simp add: floor_unique)
  then show ?thesis
    by (simp add: Math_round_def)
qed

lemma Math_round_clamp:
  "Math_round (min 2000 (max 100 x)) = clamp 100 2000 (Math_round x)"
proof -
  have lo: "Math_round 100 = 100"
    using Math_round_of_int [of 100] by simp
  have hi: "Math_round 2000 = 2000"
    using Math_round_of_int [of 2000] by simp
  consider "x < 100" | "100 \<le> x \<and> x \<le> 2000" | "2000 < x"
    by linarith
  then show ?thesis
  proof cases
    case 1
    then have "Math_round x \<le> 100"
      using Math_round_mono [of x 100] lo by simp
    with 1 show ?thesis
      by (simp add: clamp_def lo max_def min_def)
  next
    case 2
    then have "100 \<le> Math_round x \<and> Math_round x \<le> 2000"
      using Math_round_range [of 100 x 2000] by simp
    then have "clamp 100 2000 (Math_round x) = Math_round x"
      by (simp add: clamp_def)
    moreover from 2 have "min 2000 (max 100 x) = x"
      by simp
    ultimately show ?thesis
      by simp
  next
    case 3
    then have "2000 \<le> Math_round x"
      using Math_round_mono [of 2000 x] hi by simp
    with 3 show ?thesis
      by (simp add: clamp_def hi max_def min_def)
  qed
qed

lemma flowVel_range:
  "100 \<le> flowVel (updateSystem r1 r2 r3 r4 m) \<and> flowVel (updateSystem r1 r2 r3 r4 m) \<le> 2000"
  using Math_round_range [of 100 "min 2000 (max 100 (flowVel m + (r2 - 0.5) * 80))" 2000]
  by (simp add: updateSystem_def)

lemma cpuLoad_range:
  "0 \<le> cpuLoad (updateSystem r1 r2 r3 r4 m) \<and> cpuLoad (updateSystem r1 r2 r3 r4 m) \<le> 100"
  by (simp add: updateSystem_def)

text \<open>
  Claim C2. For every metric state with \<open>cpuLoad\<close> in \<open>[0, 100]\<close> and \<open>flowVel\<close> in
  \<open>[100, 2000]\<close>, and for every outcome of the four random draws, the state after one
  tick has \<open>cpuLoad\<close> in \<open>[0, 100]\<close> and \<open>flowVel\<close> in \<open>[100, 2000]\<close> again. The new
  \<open>cpuLoad\<close> is the old one moved by some amount in \<open>[-2, 2]\<close> and clamped to
  \<open>[0, 100]\<close>; the new \<open>flowVel\<close> is the old one moved by some amount in \<open>[-40, 40]\<close>,
  rounded to the nearest integer and clamped to \<open>[100, 2000]\<close> (the source clamps before
  it rounds, which gives the same number).
\<close>

theorem updateSystem_keeps_ranges:
  assumes "0 \<le> cpuLoad m \<and> cpuLoad m \<le> 100"
    and "100 \<le> flowVel m \<and> flowVel m \<le> 2000"
    and "isRandom r1" and "isRandom r2" and "isRandom r3" and "isRandom r4"
  shows "0 \<le> cpuLoad (updateSystem r1 r2 r3 r4 m)
       \<and> cpuLoad (updateSystem r1 r2 r3 r4 m) \<le> 100
       \<and> 100 \<le> flowVel (updateSystem r1 r2 r3 r4 m)
       \<and> flowVel (updateSystem r1 r2 r3 r4 m) \<le> 2000
       \<and> (\<exists>d. - 2 \<le> d \<and> d \<le> 2
              \<and> cpuLoad (updateSystem r1 r2 r3 r4 m) = clamp 0 100 (cpuLoad m + d))
       \<and> (\<exists>d. - 40 \<le> d \<and> d \<le> 40
              \<and> flowVel (updateSystem r1 r2 r3 r4 m)
                  = clamp 100 2000 (Math_round (flowVel m + d)))"
proof -
  let ?d1 = "(r1 - 0.5) * 4" and ?d2 = "(r2 - 0.5) * 80"
  have d1: "- 2 \<le> ?d1 \<and> ?d1 \<le> 2"
    using assms(3) by (simp add: isRandom_def)
  have d2: "- 40 \<le> ?d2 \<and> ?d2 \<le> 40"
    using assms(4) by (simp add: isRandom_def)
  have c: "cpuLoad (updateSystem r1 r2 r3 r4 m) = clamp 0 100 (cpuLoad m + ?d1)"
    by (simp add: updateSystem_def clamp_def)
  have f: "flowVel (updateSystem r1 r2 r3 r4 m) = clamp 100 2000 (Math_round (flowVel m + ?d2))"
    using Math_round_clamp [of "flowVel m + ?d2"] by (simp add: updateSystem_def)
  from c d1 have ec: "\<exists>d. - 2 \<le> d \<and> d \<le> 2
      \<and> cpuLoad (updateSystem r1 r2 r3 r4 m) = clamp 0 100 (cpuLoad m + d)"
    by blast
  from f d2 have ef: "\<exists>d. - 40 \<le> d \<and> d \<le> 40
      \<and> flowVel (updateSystem r1 r2 r3 r4 m) = clamp 100 2000 (Math_round (flowVel m + d))"
    by blast
  show ?thesis
    using cpuLoad_range [of r1 r2 r3 r4 m] flowVel_range [of r1 r2 r3 r4 m] ec ef
    by blast
qed

theorem updateSystem_keeps_ranges_witness:
  "0 \<le> cpuLoad initialMetrics \<and> cpuLoad initialMetrics \<le> 100
   \<and> 100 \<le> flowVel initialMetrics \<and> flowVel initialMetrics \<le> 2000
   \<and> isRandom 0 \<and> isRandom (3 / 4) \<and> isRandom (1 / 2) \<and> isRandom (1 / 4)
   \<and> updateSystem 0 (3 / 4) (1 / 2) (1 / 4) initialMetrics
       = \<lparr>cpuLoad = 40.8, flowVel = 912, views = 14288, conversionRate = 4.16\<rparr>
   \<and> 0 \<le> cpuLoad (updateSystem 0 (3 / 4) (1 / 2) (1 / 4) initialMetrics)
   \<and> cpuLoad (updateSystem 0 (3 / 4) (1 / 2) (1 / 4) initialMetrics) \<le> 100
   \<and> 100 \<le> flowVel (updateSystem 0 (3 / 4) (1 / 2) (1 / 4) initialMetrics)
   \<and> flowVel (updateSystem 0 (3 / 4) (1 / 2) (1 / 4) initialMetrics) \<le> 2000"
proof -
  have m: "0 \<le> cpuLoad initialMetrics \<and> cpuLoad initialMetrics \<le> 100"
    "100 \<le> flowVel initialMetrics \<and> flowVel initialMetrics \<le> 2000"
    by (simp_all add: initialMetrics_def)
  have r: "isRandom 0" "isRandom (3 / 4)" "isRandom (1 / 2)" "isRandom (1 / 4)"
    by (simp_all add: isRandom_def)
  have v: "updateSystem 0 (3 / 4) (1 / 2) (1 / 4) initialMetrics
       = \<lparr>cpuLoad = 40.8, flowVel = 912, views = 14288, conversionRate = 4.16\<rparr>"
    by (simp add: updateSystem_def initialMetrics_def Math_round_def Math_floor_def toFixed2_def)
  show ?thesis
    using updateSystem_keeps_ranges [OF m r] m r v by simp
qed

section \<open>Properties of the step rotator\<close>

lemma nextStep_mod: "0 \<le> i \<Longrightarrow> nextStep i = (i + 1) mod 4"
  by (simp add: nextStep_def smod_int_alt_def sgn_if)

lemma nextStep_funpow: "0 \<le> i \<Longrightarrow> i \<le> 3 \<Longrightarrow> (nextStep ^^ n) i = (i + int n) mod 4"
proof (induction n)
  case 0
  then show ?case by simp
next
  case (Suc n)
  have "(nextStep ^^ Suc n) i = nextStep ((i + int n) mod 4)"
    using Suc by simp
  also have "\<dots> = ((i + int n) mod 4 + 1) mod 4"
    by (rule nextStep_mod) simp
  also have "\<dots> = (i + int (Suc n)) mod 4"
    by (simp add: mod_simps ac_simps)
  finally show ?case .
qed

lemma nextStep_period: "0 \<le> i \<Longrightarrow> i \<le> 3 \<Longrightarrow> ((nextStep ^^ n) i = i) = (4 dvd n)"
proof -
  assume a: "0 \<le> i" "i \<le> 3"
  then have "((nextStep ^^ n) i = i) = ((i + int n) mod 4 = i mod 4)"
    by (simp add: nextStep_funpow)
  also have "\<dots> = (4 dvd int n)"
    by presburger
  also have "\<dots> = (4 dvd n)"
    by presburger
  finally show ?thesis .
qed

text \<open>
  Claim C3. For every step index \<open>i\<close> in \<open>0..3\<close>, \<open>nextStep\<close> returns \<open>(i + 1) mod 4\<close>, which
  is an index in \<open>0..3\<close> again. Four advances lead back to the starting index; after
  \<open>n\<close> advances the index is \<open>(i + n) mod 4\<close>, so that from index 0 the active indices
  are 0, 1, 2, 3, 0, 1, 2, 3 and so on; and the starting index comes back exactly at the
  multiples of 4.
\<close>

theorem nextStep_cycles:
  assumes "0 \<le> i" and "i \<le> 3"
  shows "nextStep i = (i + 1) mod 4
       \<and> 0 \<le> nextStep i \<and> nextStep i \<le> 3
       \<and> (nextStep ^^ 4) i = i
       \<and> (nextStep ^^ n) i = (i + int n) mod 4
       \<and> (nextStep ^^ n) 0 = int (n mod 4)
       \<and> ((nextStep ^^ n) i = i) = (4 dvd n)"
proof -
  have one: "nextStep i = (i + 1) mod 4"
    using assms(1) by (rule nextStep_mod)
  then have range: "0 \<le> nextStep i \<and> nextStep i \<le> 3"
    by simp
  have four: "(nextStep ^^ 4) i = i"
    using assms nextStep_period [of i 4] by simp
  have many: "(nextStep ^^ n) i = (i + int n) mod 4"
    using assms by (rule nextStep_funpow)
  have "(nextStep ^^ n) 0 = (0 + int n) mod 4"
    by (rule nextStep_funpow) simp_all
  then have zero: "(nextStep ^^ n) 0 = int (n mod 4)"
    by (simp add: zmod_int)
  have period: "((nextStep ^^ n) i = i) = (4 dvd n)"
    using assms by (rule nextStep_period)
  show ?thesis
    using one range four many zero period by blast
qed

theorem nextStep_cycles_witness:
  "(0::int) \<le> 3 \<and> (3::int) \<le> 3
   \<and> nextStep 3 = 0
   \<and> (nextStep ^^ 4) 3 = 3
   \<and> (nextStep ^^ 6) 3 = 1
   \<and> (nextStep ^^ 6) 0 = 2
   \<and> (nextStep ^^ 6) 3 \<noteq> 3"
  using nextStep_cycles [of 3 6] by simp

section \<open>Properties of the view counter\<close>

lemma Math_floor_draw:
  assumes "isRandom r"
  shows "\<exists>k::int. 0 \<le> k \<and> k \<le> 7 \<and> Math_floor (r * 8) = of_int k"
proof -
  have "0 \<le> r * 8" and "r * 8 < 8"
    using assms by (simp_all add: isRandom_def)
  then have "0 \<le> \<lfloor>r * 8\<rfloor>" and "\<lfloor>r * 8\<rfloor> < 8"
    by (simp_all add: floor_less_iff)
  then show ?thesis
    unfolding Math_floor_def by (intro exI [of _ "\<lfloor>r * 8\<rfloor>"]) simp
qed

lemma views_step:
  "isRandom r3 \<Longrightarrow> views m \<le> views (updateSystem r1 r2 r3 r4 m)"
  using Math_floor_draw [of r3] by (auto simp add: updateSystem_def)

lemma ticks_append: "ticks (ds @ ds') m = ticks ds' (ticks ds m)"
  by (induction ds m rule: ticks.induct) simp_all

lemma views_ticks: "list_all drawsOk ds \<Longrightarrow> views m \<le> views (ticks ds m)"
proof (induction ds m rule: ticks.induct)
  case (1 m)
  then show ?case by simp
next
  case (2 r1 r2 r3 r4 rest m)
  then have "drawsOk (r1, r2, r3, r4)" and rest: "list_all drawsOk rest"
    by simp_all
  then have "isRandom r3"
    by (simp add: drawsOk_def)
  with rest have "views m \<le> views (updateSystem r1 r2 r3 r4 m)"
    and "views (updateSystem r1 r2 r3 r4 m) \<le> views (ticks rest (updateSystem r1 r2 r3 r4 m))"
    using "2.IH" by (simp_all add: views_step)
  then show ?case by simp
qed

text \<open>
  Claim C6. For every metric state and every outcome of the random draws, \<open>views\<close> after
  one tick is at least \<open>views\<close> before it, and the increment is one of the integers
  0 to 7. Hence \<open>views\<close> does not decrease along any run of ticks: not from the start
  of the run to its end, and not from any point of a run to a later one.
\<close>

theorem views_never_decrease:
  "(isRandom r3 \<longrightarrow>
      views m \<le> views (updateSystem r1 r2 r3 r4 m)
      \<and> (\<exists>k::int. 0 \<le> k \<and> k \<le> 7
            \<and> views (updateSystem r1 r2 r3 r4 m) = views m + of_int k))
   \<and> (list_all drawsOk ds \<longrightarrow> views m \<le> views (ticks ds m))
   \<and> (list_all drawsOk ds' \<longrightarrow> views (ticks ds m) \<le> views (ticks (ds @ ds') m))"
proof -
  have a: "views m \<le> views (updateSystem r1 r2 r3 r4 m)" if "isRandom r3"
    using that by (rule views_step)
  have b: "\<exists>k::int. 0 \<le> k \<and> k \<le> 7
      \<and> views (updateSystem r1 r2 r3 r4 m) = views m + of_int k" if "isRandom r3"
    using Math_floor_draw [OF that] by (simp add: updateSystem_def)
  have c: "views m \<le> views (ticks ds m)" if "list_all drawsOk ds"
    using that by (rule views_ticks)
  have d: "views (ticks ds m) \<le> views (ticks (ds @ ds') m)" if "list_all drawsOk ds'"
    using views_ticks [OF that, of "ticks ds m"] by (simp add: ticks_append)
  show ?thesis
    using a b c d by blast
qed

theorem views_never_decrease_witness:
  "isRandom (1 / 2) \<and> list_all drawsOk sampleDraws
   \<and> views initialMetrics = 14284
   \<and> views (updateSystem 0 (3 / 4) (1 / 2) (1 / 4) initialMetrics) = 14288
   \<and> views (ticks sampleDraws initialMetrics) = 14295
   \<and> views initialMetrics \<le> views (updateSystem 0 (3 / 4) (1 / 2) (1 / 4) initialMetrics)
   \<and> views initialMetrics \<le> views (ticks sampleDraws initialMetrics)"
proof -
  have r: "isRandom (1 / 2)"
    by (simp add: isRandom_def)
  have ds: "list_all drawsOk sampleDraws"
    by (simp add: sampleDraws_def drawsOk_def isRandom_def)
  have v0: "views initialMetrics = 14284"
    by (simp add: initialMetrics_def)
  have v1: "views (updateSystem 0 (3 / 4) (1 / 2) (1 / 4) initialMetrics) = 14288"
    by (simp add: updateSystem_def initialMetrics_def Math_floor_def)
  have v3: "views (ticks sampleDraws initialMetrics) = 14295"
    by (simp add: sampleDraws_def updateSystem_def initialMetrics_def Math_floor_def)
  show ?thesis
    using views_never_decrease [of "1 / 2" initialMetrics 0 "3 / 4" "1 / 4" sampleDraws "[]"]
      r ds v0 v1 v3
    by simp
qed

section \<open>Properties of the advisor request\<close>

lemma last_addLog: "last (addLog now txt ty prev) = newEntry now txt ty"
  by (simp add: addLog_def)

lemma upperOf_not_empty: "upperOf tbl c \<noteq> []"
  by (simp add: upperOf_def split: list.splits)

lemma toUpperCase_empty: "(toUpperCase tbl u = []) = (u = [])"
  by (cases u) (simp_all add: toUpperCase_def upperOf_not_empty)

lemma insightOf_text: "trim t \<noteq> [] \<Longrightarrow> insightOf tbl (Some t) = toUpperCase tbl (trim t)"
  by (simp add: insightOf_def toUpperCase_empty)

lemma insightOf_empty: "trim t = [] \<Longrightarrow> insightOf tbl (Some t) = js ''INSIGHT_FETCH_TIMEOUT''"
  by (simp add: insightOf_def toUpperCase_def)

lemma handleSync_finish_Rejected:
  "handleSync_finish tbl now Rejected s =
     Inr (s\<lparr>logs := addLog now (js ''AI_GATEWAY_TIMEOUT'') error (logs s),
            isAiLoading := False\<rparr>)"
  by (simp add: handleSync_finish_def tryBlock_def)

lemma handleSync_finish_Fulfilled:
  "handleSync_finish tbl now (Fulfilled t) s =
     Inr (s\<lparr>logs := addLog now (insightOf tbl t) ai (logs s), isAiLoading := False\<rparr>)"
  by (simp add: handleSync_finish_def tryBlock_def)

lemma pendingState_eq:
  "pendingState = initialState
     \<lparr>isAiLoading := True,
      logs := initialLogs @
        [\<lparr>log_id = ''1700000000000'', log_text = js ''REQUESTING_AI_INSIGHT...'',
          log_type = ai\<rparr>]\<rparr>"
  by (simp add: pendingState_def handleSync_start_def handleSync_start_closure_def
      initialState_def initialLogs_def addLog_def slice_def newEntry_def toString.simps
      digit_char_def)

lemma handleSync_start_closure_busy: "handleSync_start_closure True now s = (s, False)"
  by (simp add: handleSync_start_closure_def)

lemma presses_same_render_busy: "presses_same_render True ts s = (s, 0)"
  by (induction ts) (simp_all add: handleSync_start_closure_busy)

lemma presses_same_render_count:
  "snd (presses_same_render False ts s) = length ts"
proof (induction ts arbitrary: s)
  case Nil
  then show ?case by simp
next
  case (Cons t ts)
  let ?s1 = "s\<lparr>isAiLoading := True,
    logs := addLog t (js ''REQUESTING_AI_INSIGHT...'') ai (logs s)\<rparr>"
  have "handleSync_start_closure False t s = (?s1, True)"
    by (simp add: handleSync_start_closure_def)
  then have "snd (presses_same_render False (t # ts) s) =
      1 + snd (presses_same_render False ts ?s1)"
    by (simp split: prod.splits)
  then show ?case
    using Cons.IH [of ?s1] by simp
qed

text \<open>
  The first press of the advisor button in the initial state appends an entry of kind
  \<open>ai\<close>, so the kind \<open>info\<close> that claim C8 names is not the one the source uses.
\<close>

theorem request_entry_counterexample:
  "handleSync_start 1700000000000 initialState =
     (initialState
        \<lparr>isAiLoading := True,
         logs := initialLogs @
           [\<lparr>log_id = ''1700000000000'', log_text = js ''REQUESTING_AI_INSIGHT...'',
             log_type = ai\<rparr>]\<rparr>, True)
   \<and> \<not> isAiLoading initialState
   \<and> log_type (last (logs (fst (handleSync_start 1700000000000 initialState)))) \<noteq> info"
  by (simp add: handleSync_start_def handleSync_start_closure_def initialState_def
      initialLogs_def addLog_def slice_def newEntry_def toString.simps digit_char_def)

text \<open>
  Claim C8, as the source has it. When \<open>handleSync\<close> runs while no request is in flight,
  it sets the in-flight flag, calls the advisor, and the entry it appends before the call
  has the text \<open>REQUESTING_AI_INSIGHT...\<close> and the kind \<open>ai\<close>: the source passes
  \<open>'ai'\<close> to \<open>addLog\<close>, not the default \<open>'info'\<close>.
\<close>

theorem handleSync_start_entry:
  assumes "\<not> isAiLoading s"
  shows "handleSync_start now s =
           (s\<lparr>isAiLoading := True,
              logs := addLog now (js ''REQUESTING_AI_INSIGHT...'') ai (logs s)\<rparr>, True)
       \<and> last (logs (fst (handleSync_start now s))) =
           \<lparr>log_id = toString now, log_text = js ''REQUESTING_AI_INSIGHT...'',
            log_type = ai\<rparr>"
  using assms
  by (simp add: handleSync_start_def handleSync_start_closure_def last_addLog newEntry_def)

theorem handleSync_start_entry_witness:
  "\<not> isAiLoading initialState
   \<and> last (logs (fst (handleSync_start 1700000000000 initialState))) =
       \<lparr>log_id = ''1700000000000'', log_text = js ''REQUESTING_AI_INSIGHT...'',
        log_type = ai\<rparr>"
proof -
  have idle: "\<not> isAiLoading initialState"
    by (simp add: initialState_def)
  have id: "toString 1700000000000 = ''1700000000000''"
    by (simp add: toString.simps digit_char_def)
  have "last (logs (fst (handleSync_start 1700000000000 initialState))) =
      \<lparr>log_id = toString 1700000000000, log_text = js ''REQUESTING_AI_INSIGHT...'',
        log_type = ai\<rparr>"
    using handleSync_start_entry [OF idle, of 1700000000000] by (rule conjunct2)
  with idle show ?thesis
    by (simp add: id)
qed


text \<open>
  A response with empty text does not produce the entry that claim C4 names: the entry
  appended is \<open>INSIGHT_FETCH_TIMEOUT\<close> of kind \<open>ai\<close>.
\<close>

theorem empty_text_counterexample:
  "handleSync_finish caseTableExcerpt 1700000000500 (Fulfilled (Some (js ''''))) pendingState =
     Inr (initialState
       \<lparr>logs := initialLogs @
          [\<lparr>log_id = ''1700000000000'', log_text = js ''REQUESTING_AI_INSIGHT...'',
            log_type = ai\<rparr>,
           \<lparr>log_id = ''1700000000500'', log_text = js ''INSIGHT_FETCH_TIMEOUT'',
            log_type = ai\<rparr>]\<rparr>)
   \<and> \<lparr>log_id = ''1700000000500'', log_text = js ''INSIGHT_FETCH_TIMEOUT'', log_type = ai\<rparr>
     \<noteq> \<lparr>log_id = ''1700000000500'', log_text = js ''AI_GATEWAY_TIMEOUT'', log_type = error\<rparr>"
proof -
  have e: "trim (js '''') = []"
    by (simp add: trim_def js_def)
  show ?thesis
    by (simp add: pendingState_eq handleSync_finish_Fulfilled insightOf_empty [OF e]
        initialState_def initialLogs_def addLog_def slice_def newEntry_def toString.simps
        digit_char_def)
qed

text \<open>
  Claim C4, as the source has it. When the awaited request rejects (network error,
  timeout, a response that cannot be read), \<open>handleSync\<close> appends exactly the entry with
  text \<open>AI_GATEWAY_TIMEOUT\<close> and kind \<open>error\<close>, and whatever the request does, the
  promise of \<open>handleSync\<close> does not reject. A response whose text is absent, or empty
  after trimming, takes the other path: the entry appended has the text
  \<open>INSIGHT_FETCH_TIMEOUT\<close> and the kind \<open>ai\<close>.
\<close>

theorem handleSync_finish_failure:
  "handleSync_finish tbl now Rejected s =
     Inr (s\<lparr>logs := addLog now (js ''AI_GATEWAY_TIMEOUT'') error (logs s),
            isAiLoading := False\<rparr>)
   \<and> last (addLog now (js ''AI_GATEWAY_TIMEOUT'') error (logs s)) =
       \<lparr>log_id = toString now, log_text = js ''AI_GATEWAY_TIMEOUT'', log_type = error\<rparr>
   \<and> (\<exists>s'. handleSync_finish tbl now r s = Inr s')
   \<and> handleSync_finish tbl now (Fulfilled None) s =
       Inr (s\<lparr>logs := addLog now (js ''INSIGHT_FETCH_TIMEOUT'') ai (logs s),
              isAiLoading := False\<rparr>)
   \<and> (trim t = [] \<longrightarrow>
        handleSync_finish tbl now (Fulfilled (Some t)) s =
          Inr (s\<lparr>logs := addLog now (js ''INSIGHT_FETCH_TIMEOUT'') ai (logs s),
                 isAiLoading := False\<rparr>))"
proof -
  have a: "last (addLog now (js ''AI_GATEWAY_TIMEOUT'') error (logs s)) =
       \<lparr>log_id = toString now, log_text = js ''AI_GATEWAY_TIMEOUT'', log_type = error\<rparr>"
    by (simp add: last_addLog newEntry_def)
  have b: "\<exists>s'. handleSync_finish tbl now r s = Inr s'"
    by (simp add: handleSync_finish_def)
  have c: "handleSync_finish tbl now (Fulfilled None) s =
       Inr (s\<lparr>logs := addLog now (js ''INSIGHT_FETCH_TIMEOUT'') ai (logs s),
              isAiLoading := False\<rparr>)"
    by (simp add: handleSync_finish_Fulfilled insightOf_def)
  have d: "handleSync_finish tbl now (Fulfilled (Some t)) s =
       Inr (s\<lparr>logs := addLog now (js ''INSIGHT_FETCH_TIMEOUT'') ai (logs s),
              isAiLoading := False\<rparr>)"
    if "trim t = []"
    using that by (simp add: handleSync_finish_Fulfilled insightOf_empty)
  show ?thesis
    using handleSync_finish_Rejected [of tbl now s] a b c d by blast
qed

theorem handleSync_finish_failure_witness:
  "trim (js ''   '') = []
   \<and> handleSync_finish caseTableExcerpt 1700000000500 Rejected pendingState =
       Inr (initialState
         \<lparr>logs := initialLogs @
            [\<lparr>log_id = ''1700000000000'', log_text = js ''REQUESTING_AI_INSIGHT...'',
              log_type = ai\<rparr>,
             \<lparr>log_id = ''1700000000500'', log_text = js ''AI_GATEWAY_TIMEOUT'',
              log_type = error\<rparr>]\<rparr>)
   \<and> handleSync_finish caseTableExcerpt 1700000000500 (Fulfilled (Some (js ''   '')))
        pendingState =
       Inr (initialState
         \<lparr>logs := initialLogs @
            [\<lparr>log_id = ''1700000000000'', log_text = js ''REQUESTING_AI_INSIGHT...'',
              log_type = ai\<rparr>,
             \<lparr>log_id = ''1700000000500'', log_text = js ''INSIGHT_FETCH_TIMEOUT'',
              log_type = ai\<rparr>]\<rparr>)"
proof -
  have e: "trim (js ''   '') = []"
    by (simp add: trim_def isWhiteSpace_def js_def)
  show ?thesis
    using handleSync_finish_failure
      [of caseTableExcerpt 1700000000500 pendingState Rejected "js ''   ''"] e
    by (simp add: pendingState_eq initialState_def initialLogs_def addLog_def slice_def
        newEntry_def toString.simps digit_char_def)
qed

text \<open>
  Claim C10. For every fulfilled request whose text is not empty after trimming, the entry
  appended has the kind \<open>ai\<close>, and its text is the returned text, trimmed and
  upper-cased. This holds whatever the upper-case mappings of the Unicode database are.
\<close>

theorem handleSync_success_entry:
  assumes "trim t \<noteq> []"
  shows "handleSync_finish tbl now (Fulfilled (Some t)) s =
           Inr (s\<lparr>logs := addLog now (toUpperCase tbl (trim t)) ai (logs s),
                  isAiLoading := False\<rparr>)
       \<and> last (addLog now (toUpperCase tbl (trim t)) ai (logs s)) =
           \<lparr>log_id = toString now, log_text = toUpperCase tbl (trim t), log_type = ai\<rparr>"
  using assms
  by (simp add: handleSync_finish_Fulfilled insightOf_text last_addLog newEntry_def)

theorem handleSync_success_entry_witness:
  "trim (js ''  stra'' @ [0xDF] @ js ''e caf'' @ [0xE9] @ js ''  '') \<noteq> []
   \<and> handleSync_finish caseTableExcerpt 1700000000500
        (Fulfilled (Some (js ''  stra'' @ [0xDF] @ js ''e caf'' @ [0xE9] @ js ''  '')))
        pendingState =
       Inr (initialState
         \<lparr>logs := initialLogs @
            [\<lparr>log_id = ''1700000000000'', log_text = js ''REQUESTING_AI_INSIGHT...'',
              log_type = ai\<rparr>,
             \<lparr>log_id = ''1700000000500'', log_text = js ''STRASSE CAF'' @ [0xC9],
              log_type = ai\<rparr>]\<rparr>)"
proof -
  let ?t = "js ''  stra'' @ [0xDF] @ js ''e caf'' @ [0xE9] @ js ''  ''"
  have e: "trim ?t = js ''stra'' @ [0xDF] @ js ''e caf'' @ [0xE9]"
    by (simp add: trim_def isWhiteSpace_def js_def)
  have u: "toUpperCase caseTableExcerpt (js ''stra'' @ [0xDF] @ js ''e caf'' @ [0xE9]) =
      js ''STRASSE CAF'' @ [0xC9]"
    by (simp add: toUpperCase_def upperOf_def caseTableExcerpt_def js_def)
  from e have ne: "trim ?t \<noteq> []"
    by (simp add: js_def)
  have "handleSync_finish caseTableExcerpt 1700000000500 (Fulfilled (Some ?t)) pendingState =
      Inr (pendingState
        \<lparr>logs := addLog 1700000000500 (toUpperCase caseTableExcerpt (trim ?t)) ai
           (logs pendingState),
         isAiLoading := False\<rparr>)"
    using handleSync_success_entry [OF ne, of caseTableExcerpt 1700000000500 pendingState]
    by (rule conjunct1)
  then have "handleSync_finish caseTableExcerpt 1700000000500 (Fulfilled (Some ?t)) pendingState =
      Inr (pendingState
        \<lparr>logs := addLog 1700000000500 (js ''STRASSE CAF'' @ [0xC9]) ai (logs pendingState),
         isAiLoading := False\<rparr>)"
    by (simp only: e u)
  with ne show ?thesis
    by (simp add: pendingState_eq initialState_def initialLogs_def addLog_def slice_def
        newEntry_def toString.simps digit_char_def)
qed

text \<open>
  Claim C7. The identifier of an entry is the clock reading in milliseconds, so two
  appends in the same millisecond get the same identifier. Here the advisor button is
  pressed and the request rejects within the same millisecond: the two entries appended
  share their identifier, and the identifiers in the log are not pairwise distinct.
\<close>

theorem same_millisecond_same_id:
  "handleSync_finish caseTableExcerpt 1700000000000 Rejected pendingState =
     Inr (initialState
       \<lparr>logs := initialLogs @
          [\<lparr>log_id = ''1700000000000'', log_text = js ''REQUESTING_AI_INSIGHT...'',
            log_type = ai\<rparr>,
           \<lparr>log_id = ''1700000000000'', log_text = js ''AI_GATEWAY_TIMEOUT'',
            log_type = error\<rparr>]\<rparr>)
   \<and> \<not> distinct (map log_id (initialLogs @
          [\<lparr>log_id = ''1700000000000'', log_text = js ''REQUESTING_AI_INSIGHT...'',
            log_type = ai\<rparr>,
           \<lparr>log_id = ''1700000000000'', log_text = js ''AI_GATEWAY_TIMEOUT'',
            log_type = error\<rparr>]))"
  by (simp add: pendingState_eq handleSync_finish_Rejected
      initialState_def initialLogs_def addLog_def slice_def newEntry_def toString.simps
      digit_char_def)

end
